theory Spec2Isabelle
  imports Main
begin

section \<open>Data model of the web module\<close>

text \<open>
  \<^verbatim>\<open>Selector\<close> is a query string or an already built Playwright locator; the locator
  type belongs to Playwright and is the type parameter \<open>'l\<close>.
\<close>

datatype 'l Selector = SelString string | SelLocator 'l

text \<open>A text or value expectation: \<^verbatim>\<open>string | RegExp\<close>, a pattern kept by its source.\<close>

datatype TextPattern = Str string | RegExp string

text \<open>The payload of an Element question: \<^verbatim>\<open>string | RegExp | (string | RegExp)[]\<close>.\<close>

datatype Payload = Single TextPattern | Multiple "TextPattern list"

text \<open>
  Modelled from the spec: \<^verbatim>\<open>StateKind\<close> (the declaration in \<^verbatim>\<open>../types\<close> is not among the
  sources). The abilities below only ever write \<open>Visible\<close> and \<open>Hidden\<close>.
\<close>

datatype StateKind =
  Attached | Visible | Hidden | Enabled | Disabled | Editable | NotEditable | HasText | HasValue

text \<open>
  Modelled from the spec: \<^verbatim>\<open>SelectorOptions\<close> (declared in \<^verbatim>\<open>../types\<close>), with the fields the
  abilities and the documented examples use: \<^verbatim>\<open>hasText\<close>, \<^verbatim>\<open>subSelector: [Selector, SelectorOptions?]\<close>,
  \<^verbatim>\<open>timeout\<close> and \<^verbatim>\<open>state\<close>. An absent field is \<open>None\<close>.
\<close>

datatype 'l SelectorOptions =
  SelectorOptions
    (hasText: "TextPattern option")
    (subSelector: "('l Selector \<times> 'l SelectorOptions option) option")
    (timeout: "nat option")
    (state: "StateKind option")

text \<open>Errors are values: what the code throws, and what its collaborators reject with.\<close>

datatype Error =
  Error string
  | SyntaxError
  | InvalidSpec
  | LookupTimeout (elapsed: nat) (limit: nat)
  | ResolutionError

section \<open>The BrowseTheWeb ability\<close>

text \<open>
  The matchers of Playwright's \<^verbatim>\<open>expect(locator)\<close> that the ability uses. A negated
  expectation (\<^verbatim>\<open>.not\<close>) is a flag beside the matcher.
\<close>

datatype Matcher =
  ToBeVisible | ToBeHidden | ToBeEnabled | ToBeDisabled | ToBeEditable
  | ToHaveText Payload | ToHaveValue TextPattern

text \<open>
  The page with its collaborators. \<^verbatim>\<open>recursiveLocatorLookup\<close> (from \<^verbatim>\<open>../utils\<close>) and
  Playwright's \<^verbatim>\<open>expect\<close> are taken as they come: each either yields its value or rejects
  with an error. \<open>expectation B loc neg m t\<close> is the bounded wait
  \<^verbatim>\<open>expect(loc)[.not].m({ timeout: t })\<close>.
\<close>

record 'l Page =
  recursiveLocatorLookup :: "'l Selector \<Rightarrow> 'l SelectorOptions option \<Rightarrow> Error + 'l"
  expectation :: "'l \<Rightarrow> bool \<Rightarrow> Matcher \<Rightarrow> nat option \<Rightarrow> Error + unit"

text \<open>Every call that leaves the ability is recorded, in order.\<close>

datatype 'l Event =
  LookupCall "'l Selector" "'l SelectorOptions option"
  | ExpectCall 'l bool Matcher "nat option"

text \<open>
  An \<^verbatim>\<open>async\<close> method: it runs on the calls made so far and ends resolved (\<open>Inr\<close>) or
  rejected (\<open>Inl\<close>), with the calls it added. \<open>await\<close> is \<open>bindP\<close>: a rejection ends the
  method there.
\<close>

type_synonym ('l, 'a) promise = "'l Event list \<Rightarrow> (Error + 'a) \<times> 'l Event list"

definition resolveP :: "'a \<Rightarrow> ('l, 'a) promise" where
  "resolveP x tr = (Inr x, tr)"

definition throwP :: "Error \<Rightarrow> ('l, 'a) promise" where
  "throwP e tr = (Inl e, tr)"

definition bindP :: "('l, 'a) promise \<Rightarrow> ('a \<Rightarrow> ('l, 'b) promise) \<Rightarrow> ('l, 'b) promise" where
  "bindP p f tr = (case p tr of (Inl e, tr') \<Rightarrow> (Inl e, tr') | (Inr x, tr') \<Rightarrow> f x tr')"

definition lookupP ::
  "'l Page \<Rightarrow> 'l Selector \<Rightarrow> 'l SelectorOptions option \<Rightarrow> ('l, 'l) promise" where
  "lookupP B sel opts tr = (recursiveLocatorLookup B sel opts, tr @ [LookupCall sel opts])"

definition expectP ::
  "'l Page \<Rightarrow> 'l \<Rightarrow> bool \<Rightarrow> Matcher \<Rightarrow> nat option \<Rightarrow> ('l, unit) promise" where
  "expectP B loc neg m t tr = (expectation B loc neg m t, tr @ [ExpectCall loc neg m t])"

text \<open>\<^verbatim>\<open>{ ...options, state: s }\<close>: the options, absent ones as the empty object, with \<open>state\<close> set.\<close>

definition withState :: "'l SelectorOptions option \<Rightarrow> StateKind \<Rightarrow> 'l SelectorOptions option" where
  "withState options s =
     (case options of
        None \<Rightarrow> Some (SelectorOptions None None None (Some s))
      | Some (SelectorOptions ht sub t _) \<Rightarrow> Some (SelectorOptions ht sub t (Some s)))"

text \<open>\<^verbatim>\<open>options?.timeout\<close>\<close>

definition timeoutOf :: "'l SelectorOptions option \<Rightarrow> nat option" where
  "timeoutOf options = (case options of None \<Rightarrow> None | Some o' \<Rightarrow> timeout o')"

datatype VisibilityMode = ModeVisible | ModeHidden
datatype EnabledMode = ModeEnabled | ModeDisabled
datatype EditableMode = ModeEditable | ModeNotEditable
datatype HasMode = Has | HasNot

definition checkVisibilityState ::
  "'l Page \<Rightarrow> 'l Selector \<Rightarrow> VisibilityMode \<Rightarrow> 'l SelectorOptions option \<Rightarrow> ('l, bool) promise" where
  "checkVisibilityState B selector mode options =
     (if mode = ModeVisible then
        bindP (lookupP B selector (withState options Visible)) (\<lambda>loc.
        bindP (expectP B loc False ToBeVisible (timeoutOf options)) (\<lambda>_.
        resolveP True))
      else
        bindP (lookupP B selector (withState options Hidden)) (\<lambda>loc.
        bindP (expectP B loc False ToBeHidden (timeoutOf options)) (\<lambda>_.
        resolveP True)))"

definition checkEnabledState ::
  "'l Page \<Rightarrow> 'l Selector \<Rightarrow> EnabledMode \<Rightarrow> 'l SelectorOptions option \<Rightarrow> ('l, bool) promise" where
  "checkEnabledState B selector mode options =
     (if mode = ModeEnabled then
        bindP (lookupP B selector (withState options Visible)) (\<lambda>loc.
        bindP (expectP B loc False ToBeEnabled (timeoutOf options)) (\<lambda>_.
        resolveP True))
      else
        bindP (lookupP B selector (withState options Visible)) (\<lambda>loc.
        bindP (expectP B loc False ToBeDisabled (timeoutOf options)) (\<lambda>_.
        resolveP True)))"

definition checkEditableState ::
  "'l Page \<Rightarrow> 'l Selector \<Rightarrow> EditableMode \<Rightarrow> 'l SelectorOptions option \<Rightarrow> ('l, bool) promise" where
  "checkEditableState B selector mode options =
     (if mode = ModeEditable then
        bindP (lookupP B selector (withState options Visible)) (\<lambda>loc.
        bindP (expectP B loc False ToBeEditable (timeoutOf options)) (\<lambda>_.
        resolveP True))
      else
        bindP (lookupP B selector (withState options Visible)) (\<lambda>loc.
        bindP (expectP B loc True ToBeEditable (timeoutOf options)) (\<lambda>_.
        resolveP True)))"

definition checkSelectorText ::
  "'l Page \<Rightarrow> 'l Selector \<Rightarrow> Payload \<Rightarrow> HasMode \<Rightarrow> 'l SelectorOptions option \<Rightarrow> ('l, bool) promise" where
  "checkSelectorText B selector text mode options =
     (if mode = Has then
        bindP (lookupP B selector (withState options Visible)) (\<lambda>loc.
        bindP (expectP B loc False (ToHaveText text) (timeoutOf options)) (\<lambda>_.
        resolveP True))
      else
        bindP (lookupP B selector (withState options Visible)) (\<lambda>loc.
        bindP (expectP B loc True (ToHaveText text) (timeoutOf options)) (\<lambda>_.
        resolveP True)))"

definition checkSelectorValue ::
  "'l Page \<Rightarrow> 'l Selector \<Rightarrow> TextPattern \<Rightarrow> HasMode \<Rightarrow> 'l SelectorOptions option \<Rightarrow> ('l, bool) promise" where
  "checkSelectorValue B selector val mode options =
     (if mode = Has then
        bindP (lookupP B selector (withState options Visible)) (\<lambda>loc.
        bindP (expectP B loc False (ToHaveValue val) (timeoutOf options)) (\<lambda>_.
        resolveP True))
      else
        bindP (lookupP B selector (withState options Visible)) (\<lambda>loc.
        bindP (expectP B loc True (ToHaveValue val) (timeoutOf options)) (\<lambda>_.
        resolveP True)))"

section \<open>The Element question\<close>

datatype CheckMode = ToBe | NotToBe

text \<open>
  The fields of the class. \<open>mode\<close> is kept as the string it is at run time, so that the
  last \<^verbatim>\<open>throw\<close> of \<^verbatim>\<open>answeredBy\<close> is a branch of the model.
\<close>

record 'l Element =
  mode :: string
  selector :: "'l Selector"
  payload :: Payload
  options :: "'l SelectorOptions option"
  checkMode :: CheckMode

text \<open>
  The private constructor, with the field initialisers of the class. The factory getters
  follow it, then the mode operators; the operators \<^verbatim>\<open>text\<close> and \<^verbatim>\<open>value\<close> are
  \<open>text_mode\<close> and \<open>value_mode\<close> here, and take a string selector as in the source.
\<close>

definition newElement :: "CheckMode \<Rightarrow> 'l Element" where
  "newElement cm =
     \<lparr> mode = ''visible'', selector = SelString '''', payload = Single (Str ''''),
       options = None, checkMode = cm \<rparr>"

definition toBe :: "'l Element" where "toBe = newElement ToBe"
definition notToBe :: "'l Element" where "notToBe = newElement NotToBe"
definition toHave :: "'l Element" where "toHave = newElement ToBe"
definition notToHave :: "'l Element" where "notToHave = newElement NotToBe"

definition visible :: "'l Element \<Rightarrow> 'l Selector \<Rightarrow> 'l SelectorOptions option \<Rightarrow> 'l Element" where
  "visible this sel opts = this\<lparr> mode := ''visible'', selector := sel, options := opts \<rparr>"

definition enabled :: "'l Element \<Rightarrow> 'l Selector \<Rightarrow> 'l SelectorOptions option \<Rightarrow> 'l Element" where
  "enabled this sel opts = this\<lparr> mode := ''enabled'', selector := sel, options := opts \<rparr>"

definition text_mode ::
  "'l Element \<Rightarrow> string \<Rightarrow> Payload \<Rightarrow> 'l SelectorOptions option \<Rightarrow> 'l Element" where
  "text_mode this sel txt opts =
     this\<lparr> mode := ''text'', selector := SelString sel, payload := txt, options := opts \<rparr>"

definition value_mode ::
  "'l Element \<Rightarrow> string \<Rightarrow> TextPattern \<Rightarrow> 'l SelectorOptions option \<Rightarrow> 'l Element" where
  "value_mode this sel v opts =
     this\<lparr> mode := ''value'', selector := SelString sel, payload := Single v, options := opts \<rparr>"

definition editable :: "'l Element \<Rightarrow> 'l Selector \<Rightarrow> 'l SelectorOptions option \<Rightarrow> 'l Element" where
  "editable this sel opts = this\<lparr> mode := ''editable'', selector := sel, options := opts \<rparr>"

text \<open>
  \<^verbatim>\<open>answeredBy\<close>, for an actor whose BrowseTheWeb ability is \<open>B\<close>. The branches are tried
  in the order of the source.
\<close>

definition answeredBy :: "'l Page \<Rightarrow> 'l Element \<Rightarrow> ('l, bool) promise" where
  "answeredBy B this =
     (if mode this = ''visible'' then
        checkVisibilityState B (selector this)
          (if checkMode this = ToBe then ModeVisible else ModeHidden) (options this)
      else if mode this = ''enabled'' then
        checkEnabledState B (selector this)
          (if checkMode this = ToBe then ModeEnabled else ModeDisabled) (options this)
      else if mode this = ''editable'' then
        checkEditableState B (selector this)
          (if checkMode this = ToBe then ModeEditable else ModeNotEditable) (options this)
      else if mode this = ''text'' then
        checkSelectorText B (selector this) (payload this)
          (if checkMode this = ToBe then Has else HasNot) (options this)
      else if mode this = ''value'' then
        (case payload this of
           Single v \<Rightarrow>
             checkSelectorValue B (selector this) v
               (if checkMode this = ToBe then Has else HasNot) (options this)
         | Multiple _ \<Rightarrow>
             throwP (Error ''Element.value: incompatible payload! Arrays can not be checked.''))
      else throwP (Error ''Unknown mode: Element.answeredBy''))"

text \<open>
  The Elements the public interface can build: a factory getter, then any number of mode
  operators.
\<close>

inductive_set constructed :: "'l Element set" where
  c_toBe: "toBe \<in> constructed"
| c_notToBe: "notToBe \<in> constructed"
| c_toHave: "toHave \<in> constructed"
| c_notToHave: "notToHave \<in> constructed"
| c_visible: "e \<in> constructed \<Longrightarrow> visible e sel opts \<in> constructed"
| c_enabled: "e \<in> constructed \<Longrightarrow> enabled e sel opts \<in> constructed"
| c_text: "e \<in> constructed \<Longrightarrow> text_mode e s txt opts \<in> constructed"
| c_value: "e \<in> constructed \<Longrightarrow> value_mode e s v opts \<in> constructed"
| c_editable: "e \<in> constructed \<Longrightarrow> editable e sel opts \<in> constructed"

section \<open>Local and session storage\<close>

text \<open>
  The browser's two storages hold strings under string keys; \<^verbatim>\<open>getItem\<close> of a missing
  key is \<^verbatim>\<open>null\<close> (\<open>None\<close>).
\<close>

record Storage =
  localStorage :: "string \<rightharpoonup> string"
  sessionStorage :: "string \<rightharpoonup> string"

text \<open>
  \<^verbatim>\<open>JSON.stringify\<close> and \<^verbatim>\<open>JSON.parse\<close> are built into the browser and taken as they
  come, over the values \<open>'v\<close> a caller can pass: \<open>stringify\<close> gives the string that
  \<^verbatim>\<open>setItem\<close> stores, \<open>parse\<close> gives \<open>None\<close> where \<^verbatim>\<open>JSON.parse\<close> throws its SyntaxError.
\<close>

record 'v Json =
  stringify :: "'v \<Rightarrow> string"
  parse :: "string \<Rightarrow> 'v option"

text \<open>
  The getters answer with a value or \<^verbatim>\<open>undefined\<close> (\<open>None\<close>). \<^verbatim>\<open>if (value)\<close> is false for
  \<^verbatim>\<open>null\<close> and for the empty string.
\<close>

definition getLocalStorageItem :: "'v Json \<Rightarrow> string \<Rightarrow> Storage \<Rightarrow> Error + 'v option" where
  "getLocalStorageItem J key st =
     (case localStorage st key of
        None \<Rightarrow> Inr None
      | Some val \<Rightarrow>
          if val \<noteq> [] then
            (case parse J val of None \<Rightarrow> Inl SyntaxError | Some v \<Rightarrow> Inr (Some v))
          else Inr None)"

definition setLocalStorageItem :: "'v Json \<Rightarrow> string \<Rightarrow> 'v \<Rightarrow> Storage \<Rightarrow> Storage" where
  "setLocalStorageItem J key v st =
     st\<lparr> localStorage := (localStorage st)(key \<mapsto> stringify J v) \<rparr>"

definition removeLocalStorageItem :: "string \<Rightarrow> Storage \<Rightarrow> Storage" where
  "removeLocalStorageItem key st = st\<lparr> localStorage := (localStorage st)(key := None) \<rparr>"

definition getSessionStorageItem :: "'v Json \<Rightarrow> string \<Rightarrow> Storage \<Rightarrow> Error + 'v option" where
  "getSessionStorageItem J key st =
     (case sessionStorage st key of
        None \<Rightarrow> Inr None
      | Some val \<Rightarrow>
          if val \<noteq> [] then
            (case parse J val of None \<Rightarrow> Inl SyntaxError | Some v \<Rightarrow> Inr (Some v))
          else Inr None)"

definition setSessionStorageItem :: "'v Json \<Rightarrow> string \<Rightarrow> 'v \<Rightarrow> Storage \<Rightarrow> Storage" where
  "setSessionStorageItem J key v st =
     st\<lparr> sessionStorage := (sessionStorage st)(key \<mapsto> stringify J v) \<rparr>"

definition removeSessionStorageItem :: "string \<Rightarrow> Storage \<Rightarrow> Storage" where
  "removeSessionStorageItem key st = st\<lparr> sessionStorage := (sessionStorage st)(key := None) \<rparr>"

text \<open>
  A small codec over a few kinds of value, written the way JSON writes them (strings
  here are the ones that need no escaping), for running the storage functions on
  concrete input.
\<close>

datatype Scalar = JNull | JBool bool | JString string

definition scalarJson :: "Scalar Json" where
  "scalarJson =
     \<lparr> stringify =
         (\<lambda>v. case v of
                JNull \<Rightarrow> ''null''
              | JBool b \<Rightarrow> (if b then ''true'' else ''false'')
              | JString s \<Rightarrow> CHR 0x22 # s @ [CHR 0x22]),
       parse =
         (\<lambda>s. if s = ''null'' then Some JNull
              else if s = ''true'' then Some (JBool True)
              else if s = ''false'' then Some (JBool False)
              else if 2 \<le> length s \<and> hd s = CHR 0x22 \<and> last s = CHR 0x22
                then Some (JString (butlast (tl s)))
              else None) \<rparr>"

definition demoStorage :: Storage where
  "demoStorage = \<lparr> localStorage = Map.empty, sessionStorage = Map.empty \<rparr>"

section \<open>The selector resolution engine\<close>

text \<open>
  \<^verbatim>\<open>recursiveLocatorLookup\<close> lives in \<^verbatim>\<open>../utils\<close>, which is not among the sources; only
  its callers are. This section follows the specification's description of the engine.
\<close>

datatype Modifier = Alt | Control | Meta | Shift

text \<open>
  Modelled from the spec: \<^verbatim>\<open>SelectorSpec\<close>, the tagged variant \<^verbatim>\<open>Literal(string) | Chain\<close>,
  a chain being \<^verbatim>\<open>{ base, hasText?, subSelector?, state?, timeout?, modifiers? }\<close>.
\<close>

datatype SelectorSpec =
  Literal string
  | Chain string "TextPattern option" "SelectorSpec option"
      "StateKind option" "nat option" "Modifier set option"

text \<open>Modelled from the spec: the options of \<^verbatim>\<open>resolve\<close>, \<^verbatim>\<open>{hasText?, timeout?, state?, modifiers?}\<close>.\<close>

record ResolveOptions =
  optHasText :: "TextPattern option"
  optTimeout :: "nat option"
  optState :: "StateKind option"
  optModifiers :: "Modifier set option"

definition noOptions :: ResolveOptions where
  "noOptions = \<lparr> optHasText = None, optTimeout = None, optState = None, optModifiers = None \<rparr>"

text \<open>
  Modelled from the spec: the ScopeProvider, the external interface the engine consumes.
  \<open>query n q\<close> finds the descendants of \<open>n\<close> matching the query string \<open>q\<close>, in the order
  the query engine gives them; \<open>textOf\<close> is the normalized rendered text; \<open>matchesPattern\<close>
  is the pattern semantics of the host (pattern source, then text); \<open>usable\<close> tells which
  strings the host accepts as a query.
\<close>

record 'n ScopeProvider =
  query :: "'n \<Rightarrow> string \<Rightarrow> 'n list"
  textOf :: "'n \<Rightarrow> string"
  matchesPattern :: "string \<Rightarrow> string \<Rightarrow> bool"
  usable :: "string \<Rightarrow> bool"

text \<open>
  Modelled from the spec: a Handle is a lazy reference bound to
  \<^verbatim>\<open>(scope, finalQuery, textFilter?)\<close>; its scope is the page or a node (\<open>Subtree\<close>) or
  the Handle of the previous chain link.
\<close>

datatype 'n Handle = Subtree 'n | Bound "'n Handle" string "TextPattern option"

text \<open>Case-sensitive substring containment.\<close>

fun startsWith :: "string \<Rightarrow> string \<Rightarrow> bool" where
  "startsWith [] _ = True"
| "startsWith (x # xs) [] = False"
| "startsWith (x # xs) (y # ys) = (x = y \<and> startsWith xs ys)"

fun containsText :: "string \<Rightarrow> string \<Rightarrow> bool" where
  "containsText s [] = (s = [])"
| "containsText s (c # cs) = (startsWith s (c # cs) \<or> containsText s cs)"

text \<open>
  Modelled from the spec: the text predicate, substring containment for a string and
  pattern semantics for a pattern, over the normalized rendered text of a node.
\<close>

definition textMatches :: "'n ScopeProvider \<Rightarrow> TextPattern \<Rightarrow> 'n \<Rightarrow> bool" where
  "textMatches SP p n =
     (case p of Str s \<Rightarrow> containsText s (textOf SP n) | RegExp r \<Rightarrow> matchesPattern SP r (textOf SP n))"

definition passes :: "'n ScopeProvider \<Rightarrow> TextPattern option \<Rightarrow> 'n \<Rightarrow> bool" where
  "passes SP f n = (case f of None \<Rightarrow> True | Some p \<Rightarrow> textMatches SP p n)"

text \<open>
  The candidates a base query matches in a scope of several nodes: the matches under
  each node of the scope, in the order of the scope.
\<close>

definition queryAll :: "'n ScopeProvider \<Rightarrow> 'n list \<Rightarrow> string \<Rightarrow> 'n list" where
  "queryAll SP ns q = concat (map (\<lambda>n. query SP n q) ns)"

text \<open>
  Modelled from the spec: the effective scope of a Handle, the nodes it materializes
  when it is queried.
\<close>

fun nodesOf :: "'n ScopeProvider \<Rightarrow> 'n Handle \<Rightarrow> 'n list" where
  "nodesOf SP (Subtree n) = [n]"
| "nodesOf SP (Bound scope q f) = filter (passes SP f) (queryAll SP (nodesOf SP scope) q)"

text \<open>
  Modelled from the spec: using a Handle. A Handle that matches nothing fails at query
  time with \<open>ResolutionError\<close>.
\<close>

definition queryHandle :: "'n ScopeProvider \<Rightarrow> 'n Handle \<Rightarrow> Error + 'n list" where
  "queryHandle SP h = (case nodesOf SP h of [] \<Rightarrow> Inl ResolutionError | n # ns \<Rightarrow> Inr (n # ns))"

text \<open>An inner value where it is set, the outer one otherwise.\<close>

definition orElse :: "'a option \<Rightarrow> 'a option \<Rightarrow> 'a option" where
  "orElse inner outer = (case inner of Some x \<Rightarrow> Some x | None \<Rightarrow> outer)"

text \<open>
  The options one chain level resolves with: its own text filter, and its own state,
  timeout and modifiers where it sets them, the ones handed down otherwise.
\<close>

definition levelOptions ::
  "ResolveOptions \<Rightarrow> TextPattern option \<Rightarrow> StateKind option \<Rightarrow> nat option \<Rightarrow>
     Modifier set option \<Rightarrow> ResolveOptions" where
  "levelOptions opts ht st t ms =
     \<lparr> optHasText = ht, optTimeout = orElse t (optTimeout opts),
       optState = orElse st (optState opts), optModifiers = orElse ms (optModifiers opts) \<rparr>"

text \<open>
  Modelled from the spec: \<^verbatim>\<open>resolve(scope, spec, options)\<close> (the function
  \<^verbatim>\<open>recursiveLocatorLookup\<close> of \<^verbatim>\<open>../utils\<close>). A Literal is bound to
  \<^verbatim>\<open>(scope, base, filter)\<close> with the filter of the options. A Chain first resolves
  \<^verbatim>\<open>{base, hasText}\<close> as in the Literal case; with a subSelector it recurses with the
  intermediate Handle as scope, handing state, timeout and modifiers down, and the deepest
  Handle is returned. A chain whose base is not a usable query string is \<open>InvalidSpec\<close>.
  The state, timeout and modifiers in force at the innermost level are returned beside
  the Handle, for the wait coupling that follows.
\<close>

fun resolve ::
  "'n ScopeProvider \<Rightarrow> 'n Handle \<Rightarrow> SelectorSpec \<Rightarrow> ResolveOptions \<Rightarrow>
     Error + ('n Handle \<times> ResolveOptions)" where
  "resolve SP scope (Literal q) opts = Inr (Bound scope q (optHasText opts), opts)"
| "resolve SP scope (Chain b ht None st t ms) opts =
     (if usable SP b then resolve SP scope (Literal b) (levelOptions opts ht st t ms)
      else Inl InvalidSpec)"
| "resolve SP scope (Chain b ht (Some sub) st t ms) opts =
     (if usable SP b then
        (case resolve SP scope (Literal b) (levelOptions opts ht st t ms) of
           Inl e \<Rightarrow> Inl e
         | Inr (H, o') \<Rightarrow> resolve SP H sub (o'\<lparr> optHasText := None \<rparr>))
      else Inl InvalidSpec)"

text \<open>A spec is well formed when every chain level has a usable base.\<close>

fun wellFormed :: "'n ScopeProvider \<Rightarrow> SelectorSpec \<Rightarrow> bool" where
  "wellFormed SP (Literal q) = True"
| "wellFormed SP (Chain b ht None st t ms) = usable SP b"
| "wellFormed SP (Chain b ht (Some sub) st t ms) = (usable SP b \<and> wellFormed SP sub)"

text \<open>
  The specification's own description of the result, to compare \<open>resolve\<close> with: the
  levels of a spec as (base, hasText) pairs from the outside in, the depth, and the
  narrowing of a scope by one level.
\<close>

fun levels :: "SelectorSpec \<Rightarrow> TextPattern option \<Rightarrow> (string \<times> TextPattern option) list" where
  "levels (Literal q) f = [(q, f)]"
| "levels (Chain b ht None st t ms) f = [(b, ht)]"
| "levels (Chain b ht (Some sub) st t ms) f = (b, ht) # levels sub None"

fun depth :: "SelectorSpec \<Rightarrow> nat" where
  "depth (Literal q) = 1"
| "depth (Chain b ht None st t ms) = 1"
| "depth (Chain b ht (Some sub) st t ms) = Suc (depth sub)"

definition narrow :: "'n ScopeProvider \<Rightarrow> 'n list \<Rightarrow> string \<times> TextPattern option \<Rightarrow> 'n list" where
  "narrow SP ns lv = filter (passes SP (snd lv)) (queryAll SP ns (fst lv))"

definition narrowIteratively ::
  "'n ScopeProvider \<Rightarrow> 'n list \<Rightarrow> (string \<times> TextPattern option) list \<Rightarrow> 'n list" where
  "narrowIteratively SP ns lvs = foldl (narrow SP) ns lvs"

text \<open>
  A page for running the ability on concrete input: one element, \<^verbatim>\<open>#save\<close>, is found
  and is enabled; every other wait runs into its timeout.
\<close>

definition demoPage :: "nat Page" where
  "demoPage =
     \<lparr> recursiveLocatorLookup =
         (\<lambda>sel opts. if sel = SelString ''#save'' then Inr 7 else Inl (LookupTimeout 500 500)),
       expectation =
         (\<lambda>loc neg m t. if loc = 7 \<and> \<not> neg \<and> m = ToBeEnabled then Inr ()
                         else Inl (LookupTimeout 1000 1000)) \<rparr>"

text \<open>
  A page whose lookups all succeed and whose waits all reject with a plain Error that
  carries a message only.
\<close>

definition plainPage :: "nat Page" where
  "plainPage =
     \<lparr> recursiveLocatorLookup = (\<lambda>sel opts. Inr 7),
       expectation =
         (\<lambda>loc neg m t. Inl (Error ''Timed out 500ms waiting for expect(locator).toBeVisible()'')) \<rparr>"

text \<open>The first query string of a spec.\<close>

definition baseOf :: "SelectorSpec \<Rightarrow> string" where
  "baseOf spec = (case spec of Literal q \<Rightarrow> q | Chain b ht sub st t ms \<Rightarrow> b)"



text \<open>
  A scope to run the engine on: the page (node 0) holds \<^verbatim>\<open><div id="a">\<close> (node 1) with
  the two spans \<^verbatim>\<open>Foo\<close> (node 2) and \<^verbatim>\<open>Bar\<close> (node 3).
\<close>

definition demoScope :: "nat ScopeProvider" where
  "demoScope =
     \<lparr> query = (\<lambda>n q. if q = ''#a'' then (if n = 0 then [1] else [])
                        else if q = ''span'' then (if n = 0 \<or> n = 1 then [2, 3] else [])
                        else []),
       textOf = (\<lambda>n. if n = 2 then ''Foo'' else if n = 3 then ''Bar'' else ''Foo Bar''),
       matchesPattern = (\<lambda>r txt. r = ''^Ba'' \<and> startsWith ''Ba'' txt),
       usable = (\<lambda>q. q \<noteq> []) \<rparr>"

definition scenarioA :: SelectorSpec where
  "scenarioA = Chain ''#a'' None (Some (Chain ''span'' (Some (Str ''Foo'')) None None None None))
                 (Some Visible) (Some 500) None"

section \<open>Lemmas on the ability\<close>

lemma check_steps:
  "bindP (lookupP B sel lo) (\<lambda>loc. bindP (expectP B loc neg M t) (\<lambda>_. resolveP True)) tr =
     (case recursiveLocatorLookup B sel lo of
        Inl e \<Rightarrow> (Inl e, tr @ [LookupCall sel lo])
      | Inr loc \<Rightarrow>
          (case expectation B loc neg M t of
             Inl e \<Rightarrow> (Inl e, tr @ [LookupCall sel lo, ExpectCall loc neg M t])
           | Inr u \<Rightarrow> (Inr True, tr @ [LookupCall sel lo, ExpectCall loc neg M t])))"
  by (simp add: bindP_def lookupP_def expectP_def resolveP_def split: sum.splits)

lemma check_extends_trace:
  "snd (bindP (lookupP B sel lo) (\<lambda>loc. bindP (expectP B loc neg M t) (\<lambda>_. resolveP True)) tr) \<noteq> tr"
  by (simp add: check_steps split: sum.splits)

lemma withState_state:
  "\<exists>o'. withState opts s = Some o' \<and> state o' = Some s \<and> timeout o' = timeoutOf opts"
  by (cases opts) (auto simp: withState_def timeoutOf_def split: SelectorOptions.splits)

lemma checks_extend_trace:
  "snd (checkVisibilityState B sel vm opts tr) \<noteq> tr"
  "snd (checkEnabledState B sel em opts tr) \<noteq> tr"
  "snd (checkEditableState B sel dm opts tr) \<noteq> tr"
  "snd (checkSelectorText B sel txt hm opts tr) \<noteq> tr"
  "snd (checkSelectorValue B sel v hm opts tr) \<noteq> tr"
  by (simp_all only: checkVisibilityState_def checkEnabledState_def checkEditableState_def
      checkSelectorText_def checkSelectorValue_def check_extends_trace if_distrib [of "\<lambda>f. f tr"]
      if_distrib [of snd] split: if_split, simp_all)

lemma constructed_modes:
  "e \<in> constructed \<Longrightarrow>
     mode e \<in> {''visible'', ''enabled'', ''editable'', ''text'', ''value''} \<and>
     (mode e = ''value'' \<longrightarrow> (\<exists>v. payload e = Single v))"
  by (induction rule: constructed.induct)
     (simp_all add: toBe_def notToBe_def toHave_def notToHave_def newElement_def
        visible_def enabled_def text_mode_def value_mode_def editable_def)

lemma scalarJson_round_trip: "parse scalarJson (stringify scalarJson v) = Some v"
proof (cases v)
  case JNull
  then show ?thesis by (simp add: scalarJson_def)
next
  case (JBool b)
  then show ?thesis by (cases b) (simp_all add: scalarJson_def)
next
  case (JString s)
  then show ?thesis by (simp add: scalarJson_def)
qed

lemma scalarJson_empty: "parse scalarJson [] = None"
  by (simp add: scalarJson_def)

section \<open>Claims on the ability and the Element question\<close>

text \<open>
  Claim C4. The enabled/disabled check and the editable/not-editable check first look the
  locator up with required state \<open>Visible\<close>, in the positive and in the negative mode,
  whatever the options say; only on the locator that lookup yields is the interactivity
  matcher (toBeEnabled, toBeDisabled, toBeEditable, not.toBeEditable) then applied, and
  a lookup that rejects ends the check before any matcher runs.
\<close>

theorem interactivity_checks_look_up_visible_first:
  "(\<exists>o'. withState opts Visible = Some o' \<and> state o' = Some Visible) \<and>
   checkEnabledState B sel em opts tr =
     (case recursiveLocatorLookup B sel (withState opts Visible) of
        Inl e \<Rightarrow> (Inl e, tr @ [LookupCall sel (withState opts Visible)])
      | Inr loc \<Rightarrow>
          (case expectation B loc False (if em = ModeEnabled then ToBeEnabled else ToBeDisabled)
                  (timeoutOf opts) of
             Inl e \<Rightarrow> Inl e | Inr u \<Rightarrow> Inr True,
           tr @ [LookupCall sel (withState opts Visible),
                 ExpectCall loc False (if em = ModeEnabled then ToBeEnabled else ToBeDisabled)
                   (timeoutOf opts)])) \<and>
   checkEditableState B sel dm opts tr =
     (case recursiveLocatorLookup B sel (withState opts Visible) of
        Inl e \<Rightarrow> (Inl e, tr @ [LookupCall sel (withState opts Visible)])
      | Inr loc \<Rightarrow>
          (case expectation B loc (dm \<noteq> ModeEditable) ToBeEditable (timeoutOf opts) of
             Inl e \<Rightarrow> Inl e | Inr u \<Rightarrow> Inr True,
           tr @ [LookupCall sel (withState opts Visible),
                 ExpectCall loc (dm \<noteq> ModeEditable) ToBeEditable (timeoutOf opts)]))"
proof -
  have a: "\<exists>o'. withState opts Visible = Some o' \<and> state o' = Some Visible"
    using withState_state [of opts Visible] by blast
  have b: "checkEnabledState B sel em opts tr =
     (case recursiveLocatorLookup B sel (withState opts Visible) of
        Inl e \<Rightarrow> (Inl e, tr @ [LookupCall sel (withState opts Visible)])
      | Inr loc \<Rightarrow>
          (case expectation B loc False (if em = ModeEnabled then ToBeEnabled else ToBeDisabled)
                  (timeoutOf opts) of
             Inl e \<Rightarrow> Inl e | Inr u \<Rightarrow> Inr True,
           tr @ [LookupCall sel (withState opts Visible),
                 ExpectCall loc False (if em = ModeEnabled then ToBeEnabled else ToBeDisabled)
                   (timeoutOf opts)]))"
    by (simp add: checkEnabledState_def check_steps split: sum.splits)
  have c: "checkEditableState B sel dm opts tr =
     (case recursiveLocatorLookup B sel (withState opts Visible) of
        Inl e \<Rightarrow> (Inl e, tr @ [LookupCall sel (withState opts Visible)])
      | Inr loc \<Rightarrow>
          (case expectation B loc (dm \<noteq> ModeEditable) ToBeEditable (timeoutOf opts) of
             Inl e \<Rightarrow> Inl e | Inr u \<Rightarrow> Inr True,
           tr @ [LookupCall sel (withState opts Visible),
                 ExpectCall loc (dm \<noteq> ModeEditable) ToBeEditable (timeoutOf opts)]))"
    by (simp add: checkEditableState_def check_steps split: sum.splits)
  from a b c show ?thesis by blast
qed

theorem interactivity_checks_look_up_visible_first_witness:
  "checkEnabledState demoPage (SelString ''#save'') ModeEnabled
       (Some (SelectorOptions None None (Some 1000) (Some Hidden))) [] =
     (Inr True,
      [LookupCall (SelString ''#save'') (Some (SelectorOptions None None (Some 1000) (Some Visible))),
       ExpectCall 7 False ToBeEnabled (Some 1000)]) \<and>
   checkEditableState demoPage (SelString ''#save'') ModeNotEditable None [] =
     (Inl (LookupTimeout 1000 1000),
      [LookupCall (SelString ''#save'') (Some (SelectorOptions None None None (Some Visible))),
       ExpectCall 7 True ToBeEditable None])"
  using interactivity_checks_look_up_visible_first
      [of "Some (SelectorOptions None None (Some 1000) (Some Hidden))" demoPage
        "SelString ''#save''" ModeEnabled "[]" ModeEditable]
    interactivity_checks_look_up_visible_first
      [of None demoPage "SelString ''#save''" ModeEnabled "[]" ModeNotEditable]
  by (simp add: demoPage_def withState_def timeoutOf_def)

text \<open>
  Claim C5, as amended. In \<^verbatim>\<open>Element.answeredBy\<close> with mode \<^verbatim>\<open>"value"\<close>, an array
  payload makes the question reject, whatever the target is, with the plain
  \<^verbatim>\<open>Error("Element.value: incompatible payload! Arrays can not be checked.")\<close> and with no
  call to the ability made (the recorded calls are unchanged). A single string-or-pattern
  payload is forwarded to \<^verbatim>\<open>checkSelectorValue\<close>, with \<^verbatim>\<open>has\<close> or \<^verbatim>\<open>hasNot\<close> after the
  check mode; that method looks the target up with required state \<open>Visible\<close> and waits
  once, within \<^verbatim>\<open>options?.timeout\<close>, on \<^verbatim>\<open>toHaveValue(value)\<close> of the locator found,
  negated for \<^verbatim>\<open>hasNot\<close>.
\<close>

theorem value_mode_array_rejects_single_is_compared:
  assumes "mode e = ''value''"
  shows "answeredBy B e tr =
     (case payload e of
        Multiple vs \<Rightarrow>
          (Inl (Error ''Element.value: incompatible payload! Arrays can not be checked.''), tr)
      | Single v \<Rightarrow>
          checkSelectorValue B (selector e) v (if checkMode e = ToBe then Has else HasNot)
            (options e) tr) \<and>
   checkSelectorValue B sel w hm opts tr =
     (case recursiveLocatorLookup B sel (withState opts Visible) of
        Inl err \<Rightarrow> (Inl err, tr @ [LookupCall sel (withState opts Visible)])
      | Inr loc \<Rightarrow>
          (case expectation B loc (hm \<noteq> Has) (ToHaveValue w) (timeoutOf opts) of
             Inl err \<Rightarrow> Inl err | Inr u \<Rightarrow> Inr True,
           tr @ [LookupCall sel (withState opts Visible),
                 ExpectCall loc (hm \<noteq> Has) (ToHaveValue w) (timeoutOf opts)]))"
proof -
  have a: "answeredBy B e tr =
     (case payload e of
        Multiple vs \<Rightarrow>
          (Inl (Error ''Element.value: incompatible payload! Arrays can not be checked.''), tr)
      | Single v \<Rightarrow>
          checkSelectorValue B (selector e) v (if checkMode e = ToBe then Has else HasNot)
            (options e) tr)"
    using assms by (simp add: answeredBy_def throwP_def split: Payload.splits)
  have b: "checkSelectorValue B sel w hm opts tr =
     (case recursiveLocatorLookup B sel (withState opts Visible) of
        Inl err \<Rightarrow> (Inl err, tr @ [LookupCall sel (withState opts Visible)])
      | Inr loc \<Rightarrow>
          (case expectation B loc (hm \<noteq> Has) (ToHaveValue w) (timeoutOf opts) of
             Inl err \<Rightarrow> Inl err | Inr u \<Rightarrow> Inr True,
           tr @ [LookupCall sel (withState opts Visible),
                 ExpectCall loc (hm \<noteq> Has) (ToHaveValue w) (timeoutOf opts)]))"
    by (simp add: checkSelectorValue_def check_steps split: sum.splits)
  from a b show ?thesis by blast
qed

theorem value_mode_array_rejects_single_is_compared_witness:
  "mode ((toHave :: nat Element)\<lparr> mode := ''value'', payload := Multiple [Str ''a'', Str ''b''] \<rparr>)
     = ''value'' \<and>
   answeredBy demoPage (toHave\<lparr> mode := ''value'', payload := Multiple [Str ''a'', Str ''b''] \<rparr>) [] =
     (Inl (Error ''Element.value: incompatible payload! Arrays can not be checked.''), []) \<and>
   mode (value_mode (notToHave :: nat Element) ''#save'' (Str ''Ada'') None) = ''value'' \<and>
   answeredBy demoPage (value_mode notToHave ''#save'' (Str ''Ada'') None) [] =
     (Inl (LookupTimeout 1000 1000),
      [LookupCall (SelString ''#save'') (Some (SelectorOptions None None None (Some Visible))),
       ExpectCall 7 True (ToHaveValue (Str ''Ada'')) None])"
proof -
  have m: "mode ((toHave :: nat Element)\<lparr> mode := ''value'', payload := Multiple [Str ''a'', Str ''b''] \<rparr>)
             = ''value''"
    by simp
  have n: "mode (value_mode (notToHave :: nat Element) ''#save'' (Str ''Ada'') None) = ''value''"
    by (simp add: value_mode_def)
  from value_mode_array_rejects_single_is_compared [OF m, of demoPage "[]"]
  have x: "answeredBy demoPage
             (toHave\<lparr> mode := ''value'', payload := Multiple [Str ''a'', Str ''b''] \<rparr>) [] =
           (Inl (Error ''Element.value: incompatible payload! Arrays can not be checked.''), [])"
    by simp
  from value_mode_array_rejects_single_is_compared
         [OF n, of demoPage "[]" "SelString ''#save''" "Str ''Ada''" HasNot None]
  have y: "answeredBy demoPage (value_mode notToHave ''#save'' (Str ''Ada'') None) [] =
     (Inl (LookupTimeout 1000 1000),
      [LookupCall (SelString ''#save'') (Some (SelectorOptions None None None (Some Visible))),
       ExpectCall 7 True (ToHaveValue (Str ''Ada'')) None])"
    by (simp add: value_mode_def notToHave_def newElement_def demoPage_def withState_def
        timeoutOf_def)
  from m n x y show ?thesis by blast
qed

text \<open>
  The error of the array case is the plain Error above; it is not \<open>InvalidSpec\<close>.
\<close>

theorem value_mode_array_error_is_not_InvalidSpec:
  "fst (answeredBy demoPage
          ((toHave :: nat Element)\<lparr> mode := ''value'', payload := Multiple [Str ''a'', Str ''b''] \<rparr>) [])
     \<noteq> Inl InvalidSpec"
  by (simp add: answeredBy_def throwP_def)

text \<open>
  Claim C6, as amended. Each of the five state-checking operations
  (\<^verbatim>\<open>checkVisibilityState\<close>, \<^verbatim>\<open>checkEnabledState\<close>, \<^verbatim>\<open>checkEditableState\<close>,
  \<^verbatim>\<open>checkSelectorText\<close>, \<^verbatim>\<open>checkSelectorValue\<close>), in each of its two modes, makes one
  lookup with the required state of its row below and, when that yields a locator, one
  wait on it for the matcher and polarity of its row, bounded by \<^verbatim>\<open>options?.timeout\<close>,
  and makes no further call. It returns true when the wait succeeds; otherwise the error
  the lookup or the wait rejected with, whatever that error is, is what the caller gets,
  unchanged. It never returns false.
\<close>

theorem state_checks_wait_once_true_or_reject:
  assumes "(check, lo, neg, M) \<in>
     {(checkVisibilityState B sel ModeVisible opts, withState opts Visible, False, ToBeVisible),
      (checkVisibilityState B sel ModeHidden opts, withState opts Hidden, False, ToBeHidden),
      (checkEnabledState B sel ModeEnabled opts, withState opts Visible, False, ToBeEnabled),
      (checkEnabledState B sel ModeDisabled opts, withState opts Visible, False, ToBeDisabled),
      (checkEditableState B sel ModeEditable opts, withState opts Visible, False, ToBeEditable),
      (checkEditableState B sel ModeNotEditable opts, withState opts Visible, True, ToBeEditable),
      (checkSelectorText B sel txt Has opts, withState opts Visible, False, ToHaveText txt),
      (checkSelectorText B sel txt HasNot opts, withState opts Visible, True, ToHaveText txt),
      (checkSelectorValue B sel v Has opts, withState opts Visible, False, ToHaveValue v),
      (checkSelectorValue B sel v HasNot opts, withState opts Visible, True, ToHaveValue v)}"
  shows "check tr =
     (case recursiveLocatorLookup B sel lo of
        Inl e \<Rightarrow> (Inl e, tr @ [LookupCall sel lo])
      | Inr loc \<Rightarrow>
          (case expectation B loc neg M (timeoutOf opts) of
             Inl e \<Rightarrow> Inl e | Inr u \<Rightarrow> Inr True,
           tr @ [LookupCall sel lo, ExpectCall loc neg M (timeoutOf opts)])) \<and>
   fst (check tr) \<noteq> Inr False"
proof -
  from assms have "check =
      bindP (lookupP B sel lo) (\<lambda>loc. bindP (expectP B loc neg M (timeoutOf opts)) (\<lambda>_. resolveP True))"
    by (auto simp: checkVisibilityState_def checkEnabledState_def checkEditableState_def
        checkSelectorText_def checkSelectorValue_def)
  then have e: "check tr =
     (case recursiveLocatorLookup B sel lo of
        Inl e \<Rightarrow> (Inl e, tr @ [LookupCall sel lo])
      | Inr loc \<Rightarrow>
          (case expectation B loc neg M (timeoutOf opts) of
             Inl e \<Rightarrow> Inl e | Inr u \<Rightarrow> Inr True,
           tr @ [LookupCall sel lo, ExpectCall loc neg M (timeoutOf opts)]))"
    by (simp add: check_steps split: sum.splits)
  then have "fst (check tr) \<noteq> Inr False"
    by (simp split: sum.splits)
  with e show ?thesis by blast
qed

theorem state_checks_wait_once_true_or_reject_witness:
  "checkEnabledState demoPage (SelString ''#save'') ModeDisabled
       (Some (SelectorOptions None None (Some 1000) None)) [] =
     (Inl (LookupTimeout 1000 1000),
      [LookupCall (SelString ''#save'') (Some (SelectorOptions None None (Some 1000) (Some Visible))),
       ExpectCall 7 False ToBeDisabled (Some 1000)]) \<and>
   checkVisibilityState demoPage (SelString ''#gone'') ModeHidden None [] =
     (Inl (LookupTimeout 500 500),
      [LookupCall (SelString ''#gone'') (Some (SelectorOptions None None None (Some Hidden)))]) \<and>
   checkEnabledState demoPage (SelString ''#save'') ModeEnabled None [] =
     (Inr True,
      [LookupCall (SelString ''#save'') (Some (SelectorOptions None None None (Some Visible))),
       ExpectCall 7 False ToBeEnabled None])"
proof -
  have a: "checkEnabledState demoPage (SelString ''#save'') ModeDisabled
       (Some (SelectorOptions None None (Some 1000) None)) [] =
     (Inl (LookupTimeout 1000 1000),
      [LookupCall (SelString ''#save'') (Some (SelectorOptions None None (Some 1000) (Some Visible))),
       ExpectCall 7 False ToBeDisabled (Some 1000)])"
    using state_checks_wait_once_true_or_reject
      [where B = demoPage and sel = "SelString ''#save''"
        and opts = "Some (SelectorOptions None None (Some 1000) None)" and tr = "[]"
        and check = "checkEnabledState demoPage (SelString ''#save'') ModeDisabled
                       (Some (SelectorOptions None None (Some 1000) None))"
        and lo = "withState (Some (SelectorOptions None None (Some 1000) None)) Visible"
        and neg = False and M = ToBeDisabled]
    by (simp add: demoPage_def withState_def timeoutOf_def)
  have b: "checkVisibilityState demoPage (SelString ''#gone'') ModeHidden None [] =
     (Inl (LookupTimeout 500 500),
      [LookupCall (SelString ''#gone'') (Some (SelectorOptions None None None (Some Hidden)))])"
    using state_checks_wait_once_true_or_reject
      [where B = demoPage and sel = "SelString ''#gone''" and opts = None and tr = "[]"
        and check = "checkVisibilityState demoPage (SelString ''#gone'') ModeHidden None"
        and lo = "withState None Hidden" and neg = False and M = ToBeHidden]
    by (simp add: demoPage_def withState_def timeoutOf_def)
  have c: "checkEnabledState demoPage (SelString ''#save'') ModeEnabled None [] =
     (Inr True,
      [LookupCall (SelString ''#save'') (Some (SelectorOptions None None None (Some Visible))),
       ExpectCall 7 False ToBeEnabled None])"
    using state_checks_wait_once_true_or_reject
      [where B = demoPage and sel = "SelString ''#save''" and opts = None and tr = "[]"
        and check = "checkEnabledState demoPage (SelString ''#save'') ModeEnabled None"
        and lo = "withState None Visible" and neg = False and M = ToBeEnabled]
    by (simp add: demoPage_def withState_def timeoutOf_def)
  from a b c show ?thesis by blast
qed

text \<open>
  The error a failed check surfaces is the collaborator's own. On a page whose waits
  reject with a plain Error that carries a message only, that Error is what the check
  rejects with: nothing in the check makes it a timeout error with an elapsed time and a
  limit.
\<close>

theorem state_check_failure_is_the_collaborators_error:
  "checkVisibilityState plainPage (SelString ''#missing'') ModeVisible
       (Some (SelectorOptions None None (Some 500) None)) [] =
     (Inl (Error ''Timed out 500ms waiting for expect(locator).toBeVisible()''),
      [LookupCall (SelString ''#missing'') (Some (SelectorOptions None None (Some 500) (Some Visible))),
       ExpectCall 7 False ToBeVisible (Some 500)])"
  by (simp add: checkVisibilityState_def check_steps plainPage_def withState_def timeoutOf_def)

text \<open>
  Claim C8. Storage access round-trips: for a key and a value that survives
  \<^verbatim>\<open>JSON.parse(JSON.stringify(value))\<close> (the empty string not being JSON text),
  \<^verbatim>\<open>setLocalStorageItem\<close> followed by \<^verbatim>\<open>getLocalStorageItem\<close> of the same key returns the
  value, a key with no stored item reads as \<^verbatim>\<open>undefined\<close>, and the same holds for the
  session storage.
\<close>

theorem storage_round_trip:
  assumes "parse J (stringify J v) = Some v" and "parse J [] = None"
  shows "getLocalStorageItem J key (setLocalStorageItem J key v st) = Inr (Some v) \<and>
     getSessionStorageItem J key (setSessionStorageItem J key v st) = Inr (Some v) \<and>
     (localStorage st key = None \<longrightarrow> getLocalStorageItem J key st = Inr None) \<and>
     (sessionStorage st key = None \<longrightarrow> getSessionStorageItem J key st = Inr None)"
proof -
  from assms have "stringify J v \<noteq> []" by auto
  with assms(1) show ?thesis
    by (simp add: getLocalStorageItem_def setLocalStorageItem_def
        getSessionStorageItem_def setSessionStorageItem_def)
qed

theorem storage_round_trip_witness:
  "parse scalarJson (stringify scalarJson (JString ''localValue'')) = Some (JString ''localValue'') \<and>
   parse scalarJson [] = None \<and>
   getLocalStorageItem scalarJson ''localKey''
       (setLocalStorageItem scalarJson ''localKey'' (JString ''localValue'') demoStorage)
     = Inr (Some (JString ''localValue'')) \<and>
   getSessionStorageItem scalarJson ''sessionKey''
       (setSessionStorageItem scalarJson ''sessionKey'' (JString ''localValue'') demoStorage)
     = Inr (Some (JString ''localValue'')) \<and>
   localStorage demoStorage ''???'' = None \<and>
   getLocalStorageItem scalarJson ''???'' demoStorage = Inr None \<and>
   sessionStorage demoStorage ''???'' = None \<and>
   getSessionStorageItem scalarJson ''???'' demoStorage = Inr None"
proof -
  have p: "parse scalarJson (stringify scalarJson (JString ''localValue'')) = Some (JString ''localValue'')"
    by (rule scalarJson_round_trip)
  have q: "parse scalarJson [] = None" by (rule scalarJson_empty)
  have e: "localStorage demoStorage ''???'' = None" "sessionStorage demoStorage ''???'' = None"
    by (simp_all add: demoStorage_def)
  from storage_round_trip [OF p q, of "''localKey''" demoStorage]
    storage_round_trip [OF p q, of "''sessionKey''" demoStorage]
    storage_round_trip [OF p q, of "''???''" demoStorage] p q e
  show ?thesis by simp
qed

text \<open>
  Claim C9. For every Element built through the public interface (a factory getter
  \<^verbatim>\<open>toBe\<close>, \<^verbatim>\<open>notToBe\<close>, \<^verbatim>\<open>toHave\<close> or \<^verbatim>\<open>notToHave\<close>, then mode operators), the
  mode is one of the five handled values, \<^verbatim>\<open>answeredBy\<close> is the call of one of the five
  check methods of the ability, and it is never the final
  \<^verbatim>\<open>throw new Error("Unknown mode: Element.answeredBy")\<close>.
\<close>

theorem constructed_element_dispatches:
  assumes "e \<in> constructed"
  shows "mode e \<in> {''visible'', ''enabled'', ''editable'', ''text'', ''value''} \<and>
     ((\<exists>m. answeredBy B e = checkVisibilityState B (selector e) m (options e)) \<or>
      (\<exists>m. answeredBy B e = checkEnabledState B (selector e) m (options e)) \<or>
      (\<exists>m. answeredBy B e = checkEditableState B (selector e) m (options e)) \<or>
      (\<exists>m. answeredBy B e = checkSelectorText B (selector e) (payload e) m (options e)) \<or>
      (\<exists>v m. payload e = Single v \<and>
          answeredBy B e = checkSelectorValue B (selector e) v m (options e))) \<and>
     answeredBy B e tr \<noteq> throwP (Error ''Unknown mode: Element.answeredBy'') tr"
proof -
  from assms constructed_modes [of e]
  have m: "mode e \<in> {''visible'', ''enabled'', ''editable'', ''text'', ''value''}"
    and v: "mode e = ''value'' \<Longrightarrow> \<exists>v. payload e = Single v"
    by blast+
  from m consider "mode e = ''visible''" | "mode e = ''enabled''" | "mode e = ''editable''"
    | "mode e = ''text''" | "mode e = ''value''" by blast
  then have d: "(\<exists>m. answeredBy B e = checkVisibilityState B (selector e) m (options e)) \<or>
      (\<exists>m. answeredBy B e = checkEnabledState B (selector e) m (options e)) \<or>
      (\<exists>m. answeredBy B e = checkEditableState B (selector e) m (options e)) \<or>
      (\<exists>m. answeredBy B e = checkSelectorText B (selector e) (payload e) m (options e)) \<or>
      (\<exists>v m. payload e = Single v \<and>
          answeredBy B e = checkSelectorValue B (selector e) v m (options e))"
  proof cases
    case 1 then show ?thesis by (auto simp: answeredBy_def)
  next
    case 2 then show ?thesis by (auto simp: answeredBy_def)
  next
    case 3 then show ?thesis by (auto simp: answeredBy_def)
  next
    case 4 then show ?thesis by (auto simp: answeredBy_def)
  next
    case 5
    with v obtain w where "payload e = Single w" by blast
    with 5 show ?thesis by (auto simp: answeredBy_def)
  qed
  from d have "snd (answeredBy B e tr) \<noteq> tr"
    by (auto simp: checks_extend_trace)
  then have "answeredBy B e tr \<noteq> throwP (Error ''Unknown mode: Element.answeredBy'') tr"
    by (auto simp: throwP_def)
  with m d show ?thesis by blast
qed

theorem constructed_element_dispatches_witness:
  "value_mode (visible (notToHave :: nat Element) (SelString ''#save'') None) ''#save'' (RegExp ''^a'') None
     \<in> constructed \<and>
   mode (value_mode (visible (notToHave :: nat Element) (SelString ''#save'') None)
           ''#save'' (RegExp ''^a'') None) = ''value'' \<and>
   answeredBy demoPage
       (value_mode (visible notToHave (SelString ''#save'') None) ''#save'' (RegExp ''^a'') None) =
     checkSelectorValue demoPage (SelString ''#save'') (RegExp ''^a'') HasNot None"
proof -
  have c: "value_mode (visible (notToHave :: nat Element) (SelString ''#save'') None)
             ''#save'' (RegExp ''^a'') None \<in> constructed"
    by (intro c_value c_visible c_notToHave)
  from constructed_element_dispatches [OF c, of demoPage "[]"] c show ?thesis
    by (simp add: answeredBy_def value_mode_def visible_def notToHave_def newElement_def)
qed

text \<open>
  Claim C10. The getters \<^verbatim>\<open>toHave\<close> and \<^verbatim>\<open>toBe\<close> build the same Element, with check
  mode \<^verbatim>\<open>toBe\<close>, and \<^verbatim>\<open>notToHave\<close> and \<^verbatim>\<open>notToBe\<close> build the same Element, with check
  mode \<^verbatim>\<open>notToBe\<close>; so after any mode operators \<open>f\<close>, \<^verbatim>\<open>answeredBy\<close> behaves the same on
  both.
\<close>

theorem toHave_same_as_toBe:
  "(toHave :: 'l Element) = toBe \<and> (notToHave :: 'l Element) = notToBe \<and>
   checkMode (toHave :: 'l Element) = ToBe \<and> checkMode (notToHave :: 'l Element) = NotToBe \<and>
   (\<forall>f B. answeredBy B (f (toHave :: 'l Element)) = answeredBy B (f toBe) \<and>
           answeredBy B (f (notToHave :: 'l Element)) = answeredBy B (f notToBe))"
  by (simp add: toHave_def toBe_def notToHave_def notToBe_def newElement_def)

theorem toHave_same_as_toBe_witness:
  "answeredBy demoPage (enabled toHave (SelString ''#save'') None) [] =
     answeredBy demoPage (enabled toBe (SelString ''#save'') None) [] \<and>
   answeredBy demoPage (enabled toHave (SelString ''#save'') None) [] =
     (Inr True,
      [LookupCall (SelString ''#save'') (Some (SelectorOptions None None None (Some Visible))),
       ExpectCall 7 False ToBeEnabled None])"
  using toHave_same_as_toBe [where 'l = nat]
  by (simp add: answeredBy_def enabled_def toHave_def toBe_def notToHave_def notToBe_def
      newElement_def checkEnabledState_def
      check_steps demoPage_def withState_def timeoutOf_def)

section \<open>Lemmas on the resolution engine\<close>

lemma startsWith_iff: "startsWith s t \<longleftrightarrow> (\<exists>ss. t = s @ ss)"
  by (induction s t rule: startsWith.induct) auto

lemma containsText_iff: "containsText s t \<longleftrightarrow> (\<exists>ps ss. t = ps @ s @ ss)"
proof (induction t)
  case Nil
  show ?case by auto
next
  case (Cons c cs)
  note IH = Cons.IH
  show ?case
  proof
    assume "containsText s (c # cs)"
    then consider "startsWith s (c # cs)" | "containsText s cs" by auto
    then show "\<exists>ps ss. c # cs = ps @ s @ ss"
    proof cases
      case 1
      then obtain ss where "c # cs = s @ ss" by (auto simp: startsWith_iff)
      then have "c # cs = [] @ s @ ss" by simp
      then show ?thesis by blast
    next
      case 2
      with IH obtain ps ss where "cs = ps @ s @ ss" by blast
      then have "c # cs = (c # ps) @ s @ ss" by simp
      then show ?thesis by blast
    qed
  next
    assume "\<exists>ps ss. c # cs = ps @ s @ ss"
    then obtain ps ss where e: "c # cs = ps @ s @ ss" by blast
    show "containsText s (c # cs)"
    proof (cases ps)
      case Nil
      with e have "startsWith s (c # cs)" by (auto simp: startsWith_iff)
      then show ?thesis by simp
    next
      case (Cons p qs)
      with e have "cs = qs @ s @ ss" by simp
      with IH have "containsText s cs" by blast
      then show ?thesis by simp
    qed
  qed
qed

lemma narrowIteratively_Nil [simp]: "narrowIteratively SP ns [] = ns"
  by (simp add: narrowIteratively_def)

lemma narrowIteratively_Cons [simp]:
  "narrowIteratively SP ns (lv # lvs) = narrowIteratively SP (narrow SP ns lv) lvs"
  by (simp add: narrowIteratively_def)

lemma narrow_empty [simp]: "narrow SP [] lv = []"
  by (simp add: narrow_def queryAll_def)

lemma narrowIteratively_empty [simp]: "narrowIteratively SP [] lvs = []"
  by (induction lvs) simp_all

lemma length_levels: "length (levels spec f) = depth spec"
  by (induction spec f rule: levels.induct) simp_all

lemma resolve_descends:
  "wellFormed SP spec \<Longrightarrow>
     \<exists>h o'. resolve SP scope spec opts = Inr (h, o') \<and>
       nodesOf SP h = narrowIteratively SP (nodesOf SP scope) (levels spec (optHasText opts))"
proof (induction SP spec arbitrary: scope opts rule: wellFormed.induct)
  case (1 SP q)
  show ?case by (simp add: narrow_def)
next
  case (2 SP b ht st t ms)
  then show ?case by (simp add: narrow_def levelOptions_def)
next
  case (3 SP b ht sub st t ms)
  then have u: "usable SP b" and w: "wellFormed SP sub" by simp_all
  from "3.IH" [OF w, of "Bound scope b ht" "(levelOptions opts ht st t ms)\<lparr> optHasText := None \<rparr>"]
  obtain h o' where
    r: "resolve SP (Bound scope b ht) sub ((levelOptions opts ht st t ms)\<lparr> optHasText := None \<rparr>)
          = Inr (h, o')"
    and n: "nodesOf SP h = narrowIteratively SP (nodesOf SP (Bound scope b ht)) (levels sub None)"
    by auto
  from u r have "resolve SP scope (Chain b ht (Some sub) st t ms) opts = Inr (h, o')"
    by (simp add: levelOptions_def)
  moreover from n have "nodesOf SP h =
      narrowIteratively SP (nodesOf SP scope) (levels (Chain b ht (Some sub) st t ms) (optHasText opts))"
    by (simp add: narrow_def)
  ultimately show ?case by blast
qed

lemma resolve_only_InvalidSpec:
  "resolve SP scope spec opts = Inl e \<Longrightarrow> e = InvalidSpec"
proof (induction SP spec arbitrary: scope opts rule: wellFormed.induct)
  case (1 SP q)
  then show ?case by simp
next
  case (2 SP b ht st t ms)
  then show ?case by (simp split: if_splits)
next
  case (3 SP b ht sub st t ms)
  then show ?case by (auto split: if_splits)
qed

lemma resolve_InvalidSpec_iff:
  "resolve SP scope spec opts = Inl InvalidSpec \<longleftrightarrow> \<not> wellFormed SP spec"
proof (induction SP spec arbitrary: scope opts rule: wellFormed.induct)
  case (1 SP q)
  show ?case by simp
next
  case (2 SP b ht st t ms)
  show ?case by simp
next
  case (3 SP b ht sub st t ms)
  show ?case using "3.IH" by (simp add: levelOptions_def)
qed


lemma orElse_None [simp]: "orElse None x = x" "orElse x None = x"
  by (cases x; simp add: orElse_def)+

lemma orElse_Some [simp]: "orElse (Some a) x = Some a"
  by (simp add: orElse_def)


section \<open>Claims on the resolution engine\<close>

text \<open>
  Claim C1. For a well-formed spec of depth N resolved against a scope, \<open>resolve\<close> returns
  a Handle whose effective scope is the scope narrowed N times, once per level by that
  level's (base, hasText), from the outside in: each level is resolved against the Handle
  of the one before, and the deepest Handle is returned.
\<close>

theorem resolve_narrows_iteratively:
  assumes "wellFormed SP spec"
  shows "\<exists>h o'. resolve SP scope spec opts = Inr (h, o') \<and>
     nodesOf SP h = narrowIteratively SP (nodesOf SP scope) (levels spec (optHasText opts)) \<and>
     length (levels spec (optHasText opts)) = depth spec"
  using resolve_descends [OF assms, of scope opts] by (simp add: length_levels)

theorem resolve_narrows_iteratively_witness:
  "wellFormed demoScope scenarioA \<and> depth scenarioA = 2 \<and>
   narrowIteratively demoScope [0] (levels scenarioA None) = [2] \<and>
   (\<exists>h o'. resolve demoScope (Subtree 0) scenarioA noOptions = Inr (h, o') \<and>
      nodesOf demoScope h = [2])"
proof -
  have w: "wellFormed demoScope scenarioA" by (simp add: scenarioA_def demoScope_def)
  have d: "depth scenarioA = 2" by (simp add: scenarioA_def)
  have n: "narrowIteratively demoScope [0] (levels scenarioA None) = [2]"
    by (simp add: scenarioA_def demoScope_def narrow_def queryAll_def passes_def textMatches_def)
  from resolve_narrows_iteratively [OF w, of "Subtree 0" noOptions] w d n show ?thesis
    by (auto simp: noOptions_def)
qed

text \<open>
  Claim C2. hasText filtering is selective and applied at the level that declares it,
  before the subSelector descent: at a chain level with a text filter whose base query
  matches k nodes of the current scope, the intermediate Handle holds exactly those
  candidates that satisfy the text predicate (j of them, j \<le> k), and what \<open>resolve\<close>
  returns is the narrowing of exactly those j nodes by the levels of the subSelector.
\<close>

theorem hasText_filter_selective:
  assumes "wellFormed SP (Chain b (Some p) sub st t ms)"
  shows "length (filter (textMatches SP p) (queryAll SP (nodesOf SP scope) b))
       \<le> length (queryAll SP (nodesOf SP scope) b) \<and>
     nodesOf SP (Bound scope b (Some p)) =
       filter (textMatches SP p) (queryAll SP (nodesOf SP scope) b) \<and>
     (\<exists>h o'. resolve SP scope (Chain b (Some p) sub st t ms) opts = Inr (h, o') \<and>
        nodesOf SP h =
          narrowIteratively SP (filter (textMatches SP p) (queryAll SP (nodesOf SP scope) b))
            (case sub of None \<Rightarrow> [] | Some s \<Rightarrow> levels s None))"
proof -
  have f: "passes SP (Some p) = textMatches SP p" by (rule ext) (simp add: passes_def)
  from resolve_descends [OF assms, of scope opts]
  obtain h o' where r: "resolve SP scope (Chain b (Some p) sub st t ms) opts = Inr (h, o')"
    and n: "nodesOf SP h = narrowIteratively SP (nodesOf SP scope)
              (levels (Chain b (Some p) sub st t ms) (optHasText opts))"
    by blast
  from n have "nodesOf SP h =
      narrowIteratively SP (filter (textMatches SP p) (queryAll SP (nodesOf SP scope) b))
        (case sub of None \<Rightarrow> [] | Some s \<Rightarrow> levels s None)"
    by (cases sub) (simp_all add: narrow_def f)
  with r show ?thesis by (simp add: f)
qed

theorem hasText_filter_selective_witness:
  "wellFormed demoScope (Chain ''span'' (Some (Str ''Foo'')) None None None None) \<and>
   queryAll demoScope [1] ''span'' = [2, 3] \<and>
   nodesOf demoScope (Bound (Bound (Subtree 0) ''#a'' None) ''span'' (Some (Str ''Foo''))) = [2] \<and>
   (\<exists>h o'. resolve demoScope (Bound (Subtree 0) ''#a'' None)
        (Chain ''span'' (Some (Str ''Foo'')) None None None None) noOptions = Inr (h, o') \<and>
      nodesOf demoScope h = [2])"
proof -
  have w: "wellFormed demoScope (Chain ''span'' (Some (Str ''Foo'')) None None None None)"
    by (simp add: demoScope_def)
  have q: "queryAll demoScope [1] ''span'' = [2, 3]" by (simp add: demoScope_def queryAll_def)
  have s: "nodesOf demoScope (Bound (Subtree 0) ''#a'' None) = [1]"
    by (simp add: demoScope_def queryAll_def passes_def)
  have t: "filter (textMatches demoScope (Str ''Foo'')) [2, 3] = [2]"
    by (simp add: demoScope_def textMatches_def)
  from hasText_filter_selective [OF w, of "Bound (Subtree 0) ''#a'' None" noOptions] w q
  show ?thesis by (simp only: s q t option.case narrowIteratively_Nil)
qed



text \<open>
  Claim C7. \<open>resolve\<close> never fails with \<open>ResolutionError\<close>: for a well-formed spec whose
  base query matches no node of the scope it returns a Handle all the same, and the
  zero-match condition shows only when that Handle is queried, as \<open>ResolutionError\<close>.
\<close>

theorem zero_match_surfaces_at_query_time:
  assumes "wellFormed SP spec"
    and "queryAll SP (nodesOf SP scope) (baseOf spec) = []"
  shows "resolve SP scope spec opts \<noteq> Inl ResolutionError \<and>
     (\<exists>h o'. resolve SP scope spec opts = Inr (h, o') \<and> queryHandle SP h = Inl ResolutionError)"
proof -
  from resolve_descends [OF assms(1), of scope opts]
  obtain h o' where r: "resolve SP scope spec opts = Inr (h, o')"
    and n: "nodesOf SP h = narrowIteratively SP (nodesOf SP scope) (levels spec (optHasText opts))"
    by blast
  obtain f rest where l: "levels spec (optHasText opts) = (baseOf spec, f) # rest"
    by (cases "(spec, optHasText opts)" rule: levels.cases) (simp_all add: baseOf_def)
  from n l assms(2) have "nodesOf SP h = []" by (simp add: narrow_def)
  then have "queryHandle SP h = Inl ResolutionError" by (simp add: queryHandle_def)
  with r show ?thesis by simp
qed

theorem zero_match_surfaces_at_query_time_witness:
  "wellFormed demoScope (Chain ''#missing'' None (Some (Literal ''span'')) None None None) \<and>
   queryAll demoScope (nodesOf demoScope (Subtree 0))
     (baseOf (Chain ''#missing'' None (Some (Literal ''span'')) None None None)) = [] \<and>
   resolve demoScope (Subtree 0) (Chain ''#missing'' None (Some (Literal ''span'')) None None None)
       noOptions =
     Inr (Bound (Bound (Subtree 0) ''#missing'' None) ''span'' None, noOptions) \<and>
   queryHandle demoScope (Bound (Bound (Subtree 0) ''#missing'' None) ''span'' None)
     = Inl ResolutionError"
proof -
  have w: "wellFormed demoScope (Chain ''#missing'' None (Some (Literal ''span'')) None None None)"
    by (simp add: demoScope_def)
  have z: "queryAll demoScope (nodesOf demoScope (Subtree 0))
     (baseOf (Chain ''#missing'' None (Some (Literal ''span'')) None None None)) = []"
    by (simp add: demoScope_def queryAll_def baseOf_def)
  from zero_match_surfaces_at_query_time [OF w z, of noOptions] w z show ?thesis
    by (simp add: noOptions_def levelOptions_def demoScope_def)
qed

end
